theory Spec2Isabelle
  imports Main
begin

section \<open>Signaling server (server/index.js)\<close>

text \<open>
  The server keeps three module-level stores: \<open>clients\<close> (a Map from user id to the
  client's socket), \<open>waitingQueue\<close> (an array of user ids) and \<open>activePairs\<close> (a Map
  from user id to partner id). Node runs every handler to completion, so each handler is
  a function from the state before to the state after.

  User ids are the strings returned by \<open>uuidv4()\<close>. They are never empty, so the
  source's truthiness tests \<open>if (partnerId)\<close> on the result of \<open>activePairs.get\<close>
  test exactly whether the key is present; the ids are kept opaque here.
  SDP descriptions and ICE candidates are opaque JSON values that the server forwards
  without looking at them.
\<close>

datatype uid = Uid nat

type_synonym payload = string

text \<open>The \<open>readyState\<close> of a WebSocket: 0, 1, 2, 3 in this order.\<close>

datatype readyState = CONNECTING | OPEN | CLOSING | CLOSED

text \<open>
  Messages from a client to the server, by their \<open>type\<close> field. \<open>message.candidate\<close>
  may be absent or null, which the receiving client tests, so it is optional here; an
  offer or an answer is taken to carry its description. \<open>Unknown\<close> is any other
  \<open>type\<close>.
\<close>

datatype client_msg =
    FindPartner
  | Offer payload
  | Answer payload
  | IceCandidate "payload option"
  | Skip
  | Disconnect
  | Unknown string

text \<open>
  Messages from the server to a client (the human-readable \<open>message\<close> field is left
  out; no code reads it).
\<close>

datatype server_msg =
    Connected uid
  | Waiting
  | Paired uid
  | OfferFrom payload uid
  | AnswerFrom payload uid
  | IceFrom "payload option" uid
  | PartnerLeft
  | Disconnected

text \<open>
  \<open>clients\<close> maps an id to the \<open>readyState\<close> of its socket; \<open>sent\<close> records every
  \<open>ws.send\<close> of the server in order, as (recipient, message); \<open>caught\<close> counts the
  exceptions that reached the \<open>catch\<close> of the message handler.
\<close>

record server =
  clients :: "uid \<rightharpoonup> readyState"
  waitingQueue :: "uid list"
  activePairs :: "uid \<rightharpoonup> uid"
  sent :: "(uid \<times> server_msg) list"
  caught :: nat

definition init :: server where
  "init = \<lparr>clients = Map.empty, waitingQueue = [], activePairs = Map.empty,
           sent = [], caught = 0\<rparr>"

definition sendToClient :: "uid \<Rightarrow> server_msg \<Rightarrow> server \<Rightarrow> server" where
  "sendToClient clientId message s =
     (case clients s clientId of
        Some r \<Rightarrow> if r = OPEN then s\<lparr>sent := sent s @ [(clientId, message)]\<rparr> else s
      | None \<Rightarrow> s)"

definition pairUsers :: "uid \<Rightarrow> uid \<Rightarrow> server \<Rightarrow> server" where
  "pairUsers userId1 userId2 s =
     sendToClient userId2 (Paired userId1)
       (sendToClient userId1 (Paired userId2)
          (s\<lparr>activePairs := (activePairs s)(userId1 \<mapsto> userId2, userId2 \<mapsto> userId1)\<rparr>))"

text \<open>\<open>indexOf\<close> finds the first occurrence and \<open>splice(index, 1)\<close> deletes it.\<close>

definition removeFromQueue :: "uid \<Rightarrow> server \<Rightarrow> server" where
  "removeFromQueue userId s = s\<lparr>waitingQueue := remove1 userId (waitingQueue s)\<rparr>"

definition handleDisconnect :: "uid \<Rightarrow> server \<Rightarrow> server" where
  "handleDisconnect userId s =
     (let s1 = removeFromQueue userId s;
          s2 = (case activePairs s1 userId of
                  Some partnerId \<Rightarrow>
                    (sendToClient partnerId PartnerLeft s1)
                      \<lparr>activePairs := ((activePairs s1)(partnerId := None))(userId := None)\<rparr>
                | None \<Rightarrow> s1)
      in s2\<lparr>clients := (clients s2)(userId := None)\<rparr>)"

text \<open>
  The \<open>find-partner\<close> case of the message handler, in two parts. \<open>tryPairing\<close> is
  the pairing attempt made right after a push (the inner \<open>if\<close>): with two or more
  entries the two oldest are shifted off and paired, otherwise the sender is told to
  wait. \<open>onFindPartner\<close> is the whole case: the push, unless the id is already in
  the queue, and then the attempt.
\<close>

definition tryPairing :: "uid \<Rightarrow> server \<Rightarrow> server" where
  "tryPairing userId s =
     (if length (waitingQueue s) \<ge> 2
      then (case waitingQueue s of
              user1 # user2 # rest \<Rightarrow> pairUsers user1 user2 (s\<lparr>waitingQueue := rest\<rparr>)
            | _ \<Rightarrow> s)
      else sendToClient userId Waiting s)"

definition onFindPartner :: "uid \<Rightarrow> server \<Rightarrow> server" where
  "onFindPartner userId s =
     (if userId \<notin> set (waitingQueue s)
      then tryPairing userId (s\<lparr>waitingQueue := waitingQueue s @ [userId]\<rparr>)
      else s)"

text \<open>The three relay cases differ only in the message forwarded.\<close>

definition relay :: "uid \<Rightarrow> (uid \<Rightarrow> server_msg) \<Rightarrow> server \<Rightarrow> server" where
  "relay userId mk s =
     (case activePairs s userId of
        Some partnerId \<Rightarrow> sendToClient partnerId (mk userId) s
      | None \<Rightarrow> s)"

definition skipOrDisconnect :: "uid \<Rightarrow> server \<Rightarrow> server" where
  "skipOrDisconnect userId s =
     (let s1 = (case activePairs s userId of
                  Some currentPartnerId \<Rightarrow>
                    (sendToClient currentPartnerId PartnerLeft s)
                      \<lparr>activePairs :=
                         ((activePairs s)(currentPartnerId := None))(userId := None)\<rparr>
                | None \<Rightarrow> s);
          s2 = removeFromQueue userId s1
      in sendToClient userId Disconnected s2)"

text \<open>
  The \<open>message\<close> handler of the socket of \<open>userId\<close>. The data is \<open>None\<close> when
  \<open>JSON.parse\<close> (or reading \<open>message.type\<close>) throws: the \<open>catch\<close> logs the error
  and nothing else happens.
\<close>

fun onMessage :: "uid \<Rightarrow> client_msg option \<Rightarrow> server \<Rightarrow> server" where
  "onMessage userId None s = s\<lparr>caught := caught s + 1\<rparr>"
| "onMessage userId (Some FindPartner) s = onFindPartner userId s"
| "onMessage userId (Some (Offer offer)) s = relay userId (OfferFrom offer) s"
| "onMessage userId (Some (Answer answer)) s = relay userId (AnswerFrom answer) s"
| "onMessage userId (Some (IceCandidate candidate)) s = relay userId (IceFrom candidate) s"
| "onMessage userId (Some Skip) s = skipOrDisconnect userId s"
| "onMessage userId (Some Disconnect) s = skipOrDisconnect userId s"
| "onMessage userId (Some (Unknown t)) s = s"

text \<open>
  What can happen to the server: a new connection (the id is the one \<open>uuidv4()\<close>
  returned), a message on a socket, the \<open>close\<close> or \<open>error\<close> event of a socket, and a
  socket changing its \<open>readyState\<close> underneath the server.
\<close>

datatype event =
    Connection uid
  | Message uid "client_msg option"
  | WsClose uid
  | WsError uid
  | WsState uid readyState

fun step :: "event \<Rightarrow> server \<Rightarrow> server" where
  "step (Connection userId) s =
     s\<lparr>clients := (clients s)(userId \<mapsto> OPEN),
       sent := sent s @ [(userId, Connected userId)]\<rparr>"
| "step (Message userId data) s = onMessage userId data s"
| "step (WsClose userId) s = handleDisconnect userId s"
| "step (WsError userId) s = handleDisconnect userId s"
| "step (WsState userId r) s =
     (case clients s userId of
        Some _ \<Rightarrow> s\<lparr>clients := (clients s)(userId \<mapsto> r)\<rparr>
      | None \<Rightarrow> s)"

fun run :: "event list \<Rightarrow> server \<Rightarrow> server" where
  "run [] s = s"
| "run (e # es) s = run es (step e s)"

inductive reachable :: "server \<Rightarrow> bool" where
  reachable_init: "reachable init"
| reachable_step: "reachable s \<Longrightarrow> reachable (step e s)"

text \<open>The coordinator's stores, without the record of what was sent.\<close>

text \<open>The messages the server has sent to one client, oldest first.\<close>

definition inbox :: "uid \<Rightarrow> server \<Rightarrow> server_msg list" where
  "inbox u s = map snd (filter (\<lambda>rm. fst rm = u) (sent s))"

definition coordinator :: "server \<Rightarrow> (uid \<rightharpoonup> readyState) \<times> uid list \<times> (uid \<rightharpoonup> uid)" where
  "coordinator s = (clients s, waitingQueue s, activePairs s)"

text \<open>
  The shape of the queue between two events: no id twice, and at most one id, since
  every push is followed by a pairing attempt.
\<close>

definition queue_ok :: "server \<Rightarrow> bool" where
  "queue_ok s = (distinct (waitingQueue s) \<and> length (waitingQueue s) \<le> 1)"

text \<open>No id is its own partner.\<close>

definition no_self_pair :: "server \<Rightarrow> bool" where
  "no_self_pair s = (\<forall>a. activePairs s a \<noteq> Some a)"

text \<open>
  A trace in which \<open>find-partner\<close> only comes from ids that have no partner at that
  moment, as from a client that sends \<open>skip\<close> before it asks again; and what such
  traces preserve: the pairs are symmetric and nobody in the queue has a partner.
\<close>

fun polite :: "event list \<Rightarrow> server \<Rightarrow> bool" where
  "polite [] s = True"
| "polite (e # es) s =
     ((\<forall>u. e = Message u (Some FindPartner) \<longrightarrow> activePairs s u = None) \<and>
      polite es (step e s))"

definition symmetric :: "(uid \<rightharpoonup> uid) \<Rightarrow> bool" where
  "symmetric m = (\<forall>a b. m a = Some b \<longrightarrow> m b = Some a)"

definition pairs_ok :: "server \<Rightarrow> bool" where
  "pairs_ok s =
     (queue_ok s \<and>
      symmetric (activePairs s) \<and>
      (\<forall>a \<in> set (waitingQueue s). activePairs s a = None))"

section \<open>Client (SignalingService.js, WebRTCService.js, App.jsx)\<close>

subsection \<open>The browser's peer connection\<close>

text \<open>
  \<open>RTCPeerConnection\<close> belongs to the browser, not to the repository. Only what the
  client code relies on is modelled: the two descriptions, and the remote candidates
  the connection has accepted. As the WebRTC API specifies, \<open>addIceCandidate\<close>
  rejects while there is no remote description.
\<close>

record peer_connection =
  localDescription :: "payload option"
  remoteDescription :: "payload option"
  remoteCandidates :: "payload list"

definition newPeerConnection :: peer_connection where
  "newPeerConnection =
     \<lparr>localDescription = None, remoteDescription = None, remoteCandidates = []\<rparr>"

definition rtc_addIceCandidate :: "peer_connection \<Rightarrow> payload \<Rightarrow> peer_connection option" where
  "rtc_addIceCandidate pc candidate =
     (if remoteDescription pc = None then None
      else Some (pc\<lparr>remoteCandidates := remoteCandidates pc @ [candidate]\<rparr>))"

text \<open>
  What the browser's \<open>createOffer\<close> and \<open>createAnswer\<close> resolve to; \<open>None\<close> is a
  rejected promise.
\<close>

record browser =
  offerBlob :: "payload option"
  answerBlob :: "payload option"

subsection \<open>Client state\<close>

text \<open>
  One record holds the fields of the \<open>SignalingService\<close> object (\<open>ws\<close> is the
  \<open>readyState\<close> of \<open>this.ws\<close>, \<open>None\<close> for null), the state of the \<open>App\<close>
  component, the \<open>peerConnection\<close> of the \<open>WebRTCService\<close> object, and the effects:
  \<open>wire\<close> lists the messages handed to \<open>ws.send\<close>, \<open>timers\<close> the delays of the
  reconnects scheduled with \<open>setTimeout\<close>, and \<open>pendingClose\<close> counts the sockets
  closed with \<open>ws.close()\<close> whose \<open>close\<close> event the browser has yet to deliver.
  Each handler is run as one step, its awaits included.
\<close>

record client =
  ws :: "readyState option"
  userId :: "uid option"
  partnerId :: "uid option"
  reconnectAttempts :: nat
  maxReconnectAttempts :: nat
  status :: string
  isInitiator :: bool
  error :: "string option"
  peerConnection :: "peer_connection option"
  wire :: "client_msg list"
  timers :: "nat list"
  pendingClose :: nat

definition newClient :: client where
  "newClient =
     \<lparr>ws = None, userId = None, partnerId = None, reconnectAttempts = 0,
      maxReconnectAttempts = 5, status = ''disconnected'', isInitiator = False,
      error = None, peerConnection = None, wire = [], timers = [], pendingClose = 0\<rparr>"

subsection \<open>WebRTCService\<close>

definition createPeerConnection :: "client \<Rightarrow> client" where
  "createPeerConnection c = c\<lparr>peerConnection := Some newPeerConnection\<rparr>"

text \<open>
  \<open>createOffer\<close> and \<open>createAnswer\<close> return the description, or \<open>None\<close> when they
  throw.
\<close>

definition createOffer :: "browser \<Rightarrow> client \<Rightarrow> payload option \<times> client" where
  "createOffer b c =
     (let c1 = (if peerConnection c = None then createPeerConnection c else c)
      in case (peerConnection c1, offerBlob b) of
           (Some pc, Some offer) \<Rightarrow>
             (Some offer, c1\<lparr>peerConnection := Some (pc\<lparr>localDescription := Some offer\<rparr>)\<rparr>)
         | _ \<Rightarrow> (None, c1))"

definition createAnswer :: "browser \<Rightarrow> payload \<Rightarrow> client \<Rightarrow> payload option \<times> client" where
  "createAnswer b offer c =
     (let c1 = (if peerConnection c = None then createPeerConnection c else c)
      in case peerConnection c1 of
           None \<Rightarrow> (None, c1)
         | Some pc \<Rightarrow>
             (let pc1 = pc\<lparr>remoteDescription := Some offer\<rparr>
              in case answerBlob b of
                   None \<Rightarrow> (None, c1\<lparr>peerConnection := Some pc1\<rparr>)
                 | Some answer \<Rightarrow>
                     (Some answer,
                      c1\<lparr>peerConnection := Some (pc1\<lparr>localDescription := Some answer\<rparr>)\<rparr>)))"

text \<open>Without a peer connection \<open>handleAnswer\<close> throws, which its caller only logs.\<close>

definition handleAnswer :: "payload \<Rightarrow> client \<Rightarrow> client" where
  "handleAnswer answer c =
     (case peerConnection c of
        None \<Rightarrow> c
      | Some pc \<Rightarrow> c\<lparr>peerConnection := Some (pc\<lparr>remoteDescription := Some answer\<rparr>)\<rparr>)"

text \<open>A rejection by the browser is caught and logged inside \<open>addIceCandidate\<close>.\<close>

definition addIceCandidate :: "payload option \<Rightarrow> client \<Rightarrow> client" where
  "addIceCandidate candidate c =
     (case (peerConnection c, candidate) of
        (Some pc, Some cand) \<Rightarrow>
          (case rtc_addIceCandidate pc cand of
             Some pc' \<Rightarrow> c\<lparr>peerConnection := Some pc'\<rparr>
           | None \<Rightarrow> c)
      | _ \<Rightarrow> c)"

definition closePeerConnection :: "client \<Rightarrow> client" where
  "closePeerConnection c = c\<lparr>peerConnection := None\<rparr>"

text \<open>\<open>WebRTCService.cleanup\<close>; media streams and callbacks are not modelled.\<close>

definition rtc_cleanup :: "client \<Rightarrow> client" where
  "rtc_cleanup c = closePeerConnection c"

subsection \<open>SignalingService\<close>

definition send :: "client_msg \<Rightarrow> client \<Rightarrow> bool \<times> client" where
  "send message c =
     (if ws c = Some OPEN then (True, c\<lparr>wire := wire c @ [message]\<rparr>) else (False, c))"

definition findPartner :: "client \<Rightarrow> client" where
  "findPartner c = snd (send FindPartner c)"

definition sendOffer :: "payload \<Rightarrow> client \<Rightarrow> client" where
  "sendOffer offer c = snd (send (Offer offer) c)"

definition sendAnswer :: "payload \<Rightarrow> client \<Rightarrow> client" where
  "sendAnswer answer c = snd (send (Answer answer) c)"

definition sendIceCandidate :: "payload option \<Rightarrow> client \<Rightarrow> client" where
  "sendIceCandidate candidate c = snd (send (IceCandidate candidate) c)"

definition skip :: "client \<Rightarrow> client" where
  "skip c = (snd (send Skip c))\<lparr>partnerId := None\<rparr>"

definition disconnect :: "client \<Rightarrow> client" where
  "disconnect c = (snd (send Disconnect c))\<lparr>partnerId := None\<rparr>"

text \<open>\<open>Math.min(1000 * Math.pow(2, this.reconnectAttempts), 30000)\<close>, in milliseconds.\<close>

definition reconnectDelay :: "nat \<Rightarrow> nat" where
  "reconnectDelay attempts = min (1000 * 2 ^ attempts) 30000"

definition attemptReconnect :: "client \<Rightarrow> client" where
  "attemptReconnect c =
     (if reconnectAttempts c < maxReconnectAttempts c
      then (let c1 = c\<lparr>reconnectAttempts := reconnectAttempts c + 1\<rparr>
            in c1\<lparr>timers := timers c1 @ [reconnectDelay (reconnectAttempts c1)]\<rparr>)
      else c)"

text \<open>
  \<open>connect\<close> replaces \<open>this.ws\<close> by a new socket, which starts out connecting.
  \<open>close\<close> calls \<open>ws.close()\<close>, after which the browser delivers the socket's
  \<open>close\<close> event, unless the socket was closed already.
\<close>

definition connect :: "client \<Rightarrow> client" where
  "connect c = c\<lparr>ws := Some CONNECTING\<rparr>"

definition close :: "client \<Rightarrow> client" where
  "close c =
     (case ws c of
        Some r \<Rightarrow> c\<lparr>ws := None, userId := None, partnerId := None,
                    pendingClose := (if r = CLOSED then pendingClose c else pendingClose c + 1)\<rparr>
      | None \<Rightarrow> c)"

text \<open>
  The handlers that \<open>connect\<close> installs on the socket. They are closures over the
  service object, so they run whatever \<open>this.ws\<close> is by then. \<open>onDisconnected\<close> is
  the callback that \<open>App\<close> installs.
\<close>

definition onDisconnected :: "client \<Rightarrow> client" where
  "onDisconnected c = c\<lparr>status := ''disconnected''\<rparr>"

definition ws_onopen :: "client \<Rightarrow> client" where
  "ws_onopen c = c\<lparr>reconnectAttempts := 0\<rparr>"

definition ws_onclose :: "client \<Rightarrow> client" where
  "ws_onclose c = attemptReconnect (onDisconnected c)"

text \<open>
  What the browser does to the client: the current socket opens; the current socket is
  lost; the \<open>close\<close> event of a socket closed by \<open>close\<close> is delivered; the oldest
  reconnect timer fires and calls \<open>connect\<close>.
\<close>

definition opened :: "client \<Rightarrow> client" where
  "opened c = (case ws c of Some r \<Rightarrow> ws_onopen (c\<lparr>ws := Some OPEN\<rparr>) | None \<Rightarrow> c)"

definition dropped :: "client \<Rightarrow> client" where
  "dropped c = (case ws c of Some r \<Rightarrow> ws_onclose (c\<lparr>ws := Some CLOSED\<rparr>) | None \<Rightarrow> c)"

definition closeEvent :: "client \<Rightarrow> client" where
  "closeEvent c =
     (if pendingClose c > 0 then ws_onclose (c\<lparr>pendingClose := pendingClose c - 1\<rparr>) else c)"

definition timerFires :: "client \<Rightarrow> client" where
  "timerFires c = (case timers c of [] \<Rightarrow> c | d # ds \<Rightarrow> connect (c\<lparr>timers := ds\<rparr>))"

subsection \<open>App\<close>

definition app_handleDisconnect :: "client \<Rightarrow> client" where
  "app_handleDisconnect c = closePeerConnection c"

definition onPaired :: "browser \<Rightarrow> uid \<Rightarrow> client \<Rightarrow> client" where
  "onPaired b partner c =
     (let c1 = c\<lparr>status := ''paired'', isInitiator := True\<rparr>
      in case createOffer b c1 of
           (Some offer, c2) \<Rightarrow> (sendOffer offer c2)\<lparr>status := ''connecting''\<rparr>
         | (None, c2) \<Rightarrow> c2\<lparr>error := Some ''Failed to create connection''\<rparr>)"

definition onOffer :: "browser \<Rightarrow> payload \<Rightarrow> client \<Rightarrow> client" where
  "onOffer b offer c =
     (let c1 = c\<lparr>isInitiator := False, status := ''connecting''\<rparr>
      in case createAnswer b offer c1 of
           (Some answer, c2) \<Rightarrow> sendAnswer answer c2
         | (None, c2) \<Rightarrow> c2\<lparr>error := Some ''Failed to establish connection''\<rparr>)"

definition onAnswer :: "payload \<Rightarrow> client \<Rightarrow> client" where
  "onAnswer answer c = handleAnswer answer c"

definition onIceCandidate :: "payload option \<Rightarrow> client \<Rightarrow> client" where
  "onIceCandidate candidate c = addIceCandidate candidate c"

definition onPartnerLeft :: "client \<Rightarrow> client" where
  "onPartnerLeft c = app_handleDisconnect (c\<lparr>status := ''partner-left''\<rparr>)"

text \<open>
  \<open>SignalingService.handleMessage\<close> with the callbacks of \<open>setupSignalingCallbacks\<close>
  in place.
\<close>

fun handleMessage :: "browser \<Rightarrow> server_msg \<Rightarrow> client \<Rightarrow> client" where
  "handleMessage b (Connected u) c = c\<lparr>userId := Some u, status := ''connected'', error := None\<rparr>"
| "handleMessage b Waiting c = c\<lparr>status := ''waiting''\<rparr>"
| "handleMessage b (Paired p) c = onPaired b p (c\<lparr>partnerId := Some p\<rparr>)"
| "handleMessage b (OfferFrom offer sender) c = onOffer b offer c"
| "handleMessage b (AnswerFrom answer sender) c = onAnswer answer c"
| "handleMessage b (IceFrom candidate sender) c = onIceCandidate candidate c"
| "handleMessage b PartnerLeft c = onPartnerLeft (c\<lparr>partnerId := None\<rparr>)"
| "handleMessage b Disconnected c = onDisconnected (c\<lparr>partnerId := None\<rparr>)"

fun receive :: "browser \<Rightarrow> server_msg list \<Rightarrow> client \<Rightarrow> client" where
  "receive b [] c = c"
| "receive b (m # ms) c = receive b ms (handleMessage b m c)"

definition skipPartner :: "client \<Rightarrow> client" where
  "skipPartner c = findPartner ((skip (app_handleDisconnect c))\<lparr>status := ''waiting''\<rparr>)"

definition app_cleanup :: "client \<Rightarrow> client" where
  "app_cleanup c = close (rtc_cleanup c)"

definition stopChat :: "client \<Rightarrow> client" where
  "stopChat c = (app_cleanup c)\<lparr>status := ''disconnected''\<rparr>"


section \<open>Properties of the server\<close>

subsection \<open>What each operation leaves alone\<close>

lemma sendToClient_fields [simp]:
  "clients (sendToClient u m s) = clients s"
  "waitingQueue (sendToClient u m s) = waitingQueue s"
  "activePairs (sendToClient u m s) = activePairs s"
  "caught (sendToClient u m s) = caught s"
  by (simp_all add: sendToClient_def split: option.splits)

lemma pairUsers_fields [simp]:
  "clients (pairUsers a b s) = clients s"
  "waitingQueue (pairUsers a b s) = waitingQueue s"
  "activePairs (pairUsers a b s) = (activePairs s)(a \<mapsto> b, b \<mapsto> a)"
  "caught (pairUsers a b s) = caught s"
  by (simp_all add: pairUsers_def)

subsection \<open>The queue holds no id twice, and at most one id between events\<close>

lemma queue_ok_onFindPartner: "queue_ok s \<Longrightarrow> queue_ok (onFindPartner u s)"
  by (cases "waitingQueue s" rule: remdups_adj.cases)
    (auto simp: queue_ok_def onFindPartner_def tryPairing_def)

lemma queue_ok_removeFromQueue: "queue_ok s \<Longrightarrow> queue_ok (removeFromQueue u s)"
  by (cases "waitingQueue s" rule: remdups_adj.cases)
    (auto simp: queue_ok_def removeFromQueue_def)

lemma queue_ok_skipOrDisconnect: "queue_ok s \<Longrightarrow> queue_ok (skipOrDisconnect u s)"
proof -
  assume ok: "queue_ok s"
  have "waitingQueue (skipOrDisconnect u s) = remove1 u (waitingQueue s)"
    by (simp add: skipOrDisconnect_def removeFromQueue_def Let_def split: option.splits)
  moreover have "queue_ok (removeFromQueue u s)"
    using ok by (rule queue_ok_removeFromQueue)
  ultimately show ?thesis
    by (simp add: queue_ok_def removeFromQueue_def)
qed

lemma queue_ok_handleDisconnect: "queue_ok s \<Longrightarrow> queue_ok (handleDisconnect u s)"
proof -
  assume ok: "queue_ok s"
  have "waitingQueue (handleDisconnect u s) = remove1 u (waitingQueue s)"
    by (simp add: handleDisconnect_def removeFromQueue_def Let_def split: option.splits)
  moreover have "queue_ok (removeFromQueue u s)"
    using ok by (rule queue_ok_removeFromQueue)
  ultimately show ?thesis
    by (simp add: queue_ok_def removeFromQueue_def)
qed

lemma queue_ok_onMessage: "queue_ok s \<Longrightarrow> queue_ok (onMessage u d s)"
proof (cases d)
  case None
  assume "queue_ok s"
  with None show ?thesis by (simp add: queue_ok_def)
next
  case (Some m)
  assume ok: "queue_ok s"
  show ?thesis
  proof (cases m)
    case FindPartner
    with Some ok show ?thesis by (simp add: queue_ok_onFindPartner)
  next
    case Skip
    with Some ok show ?thesis by (simp add: queue_ok_skipOrDisconnect)
  next
    case Disconnect
    with Some ok show ?thesis by (simp add: queue_ok_skipOrDisconnect)
  qed (use Some ok in \<open>auto simp: relay_def queue_ok_def split: option.splits\<close>)
qed

lemma queue_ok_step: "queue_ok s \<Longrightarrow> queue_ok (step e s)"
proof (cases e)
  case (Connection u)
  assume "queue_ok s"
  with Connection show ?thesis by (simp add: queue_ok_def)
next
  case (WsState u r)
  assume "queue_ok s"
  with WsState show ?thesis by (simp add: queue_ok_def split: option.splits)
qed (simp_all add: queue_ok_onMessage queue_ok_handleDisconnect)

lemma reachable_queue_ok: "reachable s \<Longrightarrow> queue_ok s"
proof (induction rule: reachable.induct)
  case reachable_init
  show ?case by (simp add: queue_ok_def init_def)
next
  case (reachable_step s e)
  then show ?case by (simp only: queue_ok_step)
qed

lemma reachable_run: "reachable s \<Longrightarrow> reachable (run es s)"
  by (induction es arbitrary: s) (auto intro: reachable_step)


subsection \<open>Pairing order\<close>

text \<open>
  Claim C5. Pairing is first-in first-out and needs two waiting ids. When \<open>p1\<close>,
  \<open>p2\<close> and \<open>p3\<close> (three different ids) send \<open>find-partner\<close> in this order to a
  server whose queue is empty, \<open>p1\<close> and \<open>p2\<close> become each other's partner and the
  queue is left holding \<open>p3\<close> alone. A pairing attempt on a queue of fewer than two ids
  changes neither the queue nor the pairs; on a queue of two or more it removes the two
  oldest ids and pairs them.
\<close>

theorem fifo_pairing:
  "(distinct [p1, p2, p3] \<and> waitingQueue s = [] \<longrightarrow>
      waitingQueue (run [Message p1 (Some FindPartner), Message p2 (Some FindPartner),
                         Message p3 (Some FindPartner)] s) = [p3] \<and>
      activePairs (run [Message p1 (Some FindPartner), Message p2 (Some FindPartner),
                        Message p3 (Some FindPartner)] s)
        = (activePairs s)(p1 \<mapsto> p2, p2 \<mapsto> p1)) \<and>
   (length (waitingQueue s1) < 2 \<longrightarrow>
      waitingQueue (tryPairing u s1) = waitingQueue s1 \<and>
      activePairs (tryPairing u s1) = activePairs s1) \<and>
   (waitingQueue s2 = a # b # rest \<longrightarrow>
      waitingQueue (tryPairing u s2) = rest \<and>
      activePairs (tryPairing u s2) = (activePairs s2)(a \<mapsto> b, b \<mapsto> a))"
  by (auto simp: onFindPartner_def tryPairing_def)

theorem fifo_pairing_witness:
  "waitingQueue (run [Message (Uid 1) (Some FindPartner), Message (Uid 2) (Some FindPartner),
                      Message (Uid 3) (Some FindPartner)] init) = [Uid 3] \<and>
   activePairs (run [Message (Uid 1) (Some FindPartner), Message (Uid 2) (Some FindPartner),
                     Message (Uid 3) (Some FindPartner)] init)
     = Map.empty(Uid 1 \<mapsto> Uid 2, Uid 2 \<mapsto> Uid 1) \<and>
   waitingQueue (tryPairing (Uid 1) (init\<lparr>waitingQueue := [Uid 1]\<rparr>)) = [Uid 1] \<and>
   activePairs (tryPairing (Uid 1) (init\<lparr>waitingQueue := [Uid 1]\<rparr>)) = Map.empty \<and>
   waitingQueue (tryPairing (Uid 3) (init\<lparr>waitingQueue := [Uid 1, Uid 2, Uid 3]\<rparr>)) = [Uid 3] \<and>
   activePairs (tryPairing (Uid 3) (init\<lparr>waitingQueue := [Uid 1, Uid 2, Uid 3]\<rparr>))
     = Map.empty(Uid 1 \<mapsto> Uid 2, Uid 2 \<mapsto> Uid 1)"
  using fifo_pairing [of "Uid 1" "Uid 2" "Uid 3" init "init\<lparr>waitingQueue := [Uid 1]\<rparr>" "Uid 1"
      "init\<lparr>waitingQueue := [Uid 1, Uid 2, Uid 3]\<rparr>" "Uid 1" "Uid 2" "[Uid 3]"]
    fifo_pairing [of "Uid 1" "Uid 2" "Uid 3" init "init\<lparr>waitingQueue := [Uid 1]\<rparr>" "Uid 3"
      "init\<lparr>waitingQueue := [Uid 1, Uid 2, Uid 3]\<rparr>" "Uid 1" "Uid 2" "[Uid 3]"]
  by (simp add: init_def)

subsection \<open>Relaying without a partner\<close>

text \<open>
  Claim C6. An \<open>offer\<close>, \<open>answer\<close> or \<open>ice-candidate\<close> message from a sender that
  has no entry in \<open>activePairs\<close> leaves the whole server state as it was: nothing is
  sent to anyone (the sender included), no exception is caught, and the clients, the
  queue and the pairs are unchanged. The same holds when the sender has an entry but the
  partner it names is not a registered client with an open socket.
\<close>

theorem relay_without_partner_dropped:
  "(activePairs s u = None \<longrightarrow>
      onMessage u (Some (Offer x)) s = s \<and>
      onMessage u (Some (Answer x)) s = s \<and>
      onMessage u (Some (IceCandidate c)) s = s) \<and>
   (activePairs s' u = Some p \<and> clients s' p \<noteq> Some OPEN \<longrightarrow>
      onMessage u (Some (Offer x)) s' = s' \<and>
      onMessage u (Some (Answer x)) s' = s' \<and>
      onMessage u (Some (IceCandidate c)) s' = s')"
  by (auto simp: relay_def sendToClient_def split: option.splits)

theorem relay_without_partner_dropped_witness:
  "activePairs init (Uid 1) = None \<and>
   onMessage (Uid 1) (Some (Offer ''sdp'')) init = init \<and>
   onMessage (Uid 1) (Some (Answer ''sdp'')) init = init \<and>
   onMessage (Uid 1) (Some (IceCandidate (Some ''cand''))) init = init \<and>
   activePairs (init\<lparr>activePairs := [Uid 1 \<mapsto> Uid 2]\<rparr>) (Uid 1) = Some (Uid 2) \<and>
   clients (init\<lparr>activePairs := [Uid 1 \<mapsto> Uid 2]\<rparr>) (Uid 2) \<noteq> Some OPEN \<and>
   onMessage (Uid 1) (Some (Offer ''sdp'')) (init\<lparr>activePairs := [Uid 1 \<mapsto> Uid 2]\<rparr>)
     = init\<lparr>activePairs := [Uid 1 \<mapsto> Uid 2]\<rparr>"
proof -
  have h: "activePairs init (Uid 1) = None"
    by (simp add: init_def)
  have k: "activePairs (init\<lparr>activePairs := [Uid 1 \<mapsto> Uid 2]\<rparr>) (Uid 1) = Some (Uid 2)"
    "clients (init\<lparr>activePairs := [Uid 1 \<mapsto> Uid 2]\<rparr>) (Uid 2) \<noteq> Some OPEN"
    by (simp_all add: init_def)
  from h k relay_without_partner_dropped [of init "Uid 1" "''sdp''" "Some ''cand''"
      "init\<lparr>activePairs := [Uid 1 \<mapsto> Uid 2]\<rparr>" "Uid 2"]
  show ?thesis by blast
qed

subsection \<open>Unpairing twice\<close>

lemma skipOrDisconnect_twice:
  "distinct (waitingQueue s) \<Longrightarrow>
   coordinator (skipOrDisconnect u (skipOrDisconnect u s)) = coordinator (skipOrDisconnect u s)"
  by (auto simp: coordinator_def skipOrDisconnect_def removeFromQueue_def Let_def remove1_idem
      split: option.splits)

lemma handleDisconnect_twice:
  "distinct (waitingQueue s) \<Longrightarrow>
   coordinator (handleDisconnect u (handleDisconnect u s)) = coordinator (handleDisconnect u s)"
  by (auto simp: coordinator_def handleDisconnect_def removeFromQueue_def Let_def remove1_idem
      split: option.splits)

lemma skipOrDisconnect_caught: "caught (skipOrDisconnect u s) = caught s"
  by (simp add: skipOrDisconnect_def removeFromQueue_def Let_def split: option.splits)

text \<open>
  Claim C7. In every reachable state, handling \<open>skip\<close> (or \<open>disconnect\<close>) from the
  same id twice in a row leaves the clients, the queue and the pairs as handling it once
  does, and neither call ends in the handler's \<open>catch\<close>. The same holds for
  \<open>handleDisconnect\<close>, which runs when a socket closes.
\<close>

theorem unpair_idempotent:
  assumes "reachable s" and "m = Skip \<or> m = Disconnect"
  shows "coordinator (onMessage u (Some m) (onMessage u (Some m) s))
           = coordinator (onMessage u (Some m) s)
       \<and> caught (onMessage u (Some m) (onMessage u (Some m) s)) = caught s
       \<and> coordinator (handleDisconnect u (handleDisconnect u s))
           = coordinator (handleDisconnect u s)"
proof -
  have "distinct (waitingQueue s)"
    using assms(1) reachable_queue_ok by (simp add: queue_ok_def)
  then show ?thesis
    using assms(2)
    by (auto simp: skipOrDisconnect_twice handleDisconnect_twice skipOrDisconnect_caught)
qed

theorem unpair_idempotent_witness:
  "reachable (run [Connection (Uid 1), Connection (Uid 2), Message (Uid 1) (Some FindPartner),
                   Message (Uid 2) (Some FindPartner)] init) \<and>
   coordinator (onMessage (Uid 1) (Some Skip) (onMessage (Uid 1) (Some Skip)
      (run [Connection (Uid 1), Connection (Uid 2), Message (Uid 1) (Some FindPartner),
            Message (Uid 2) (Some FindPartner)] init)))
     = coordinator (onMessage (Uid 1) (Some Skip)
      (run [Connection (Uid 1), Connection (Uid 2), Message (Uid 1) (Some FindPartner),
            Message (Uid 2) (Some FindPartner)] init)) \<and>
   activePairs (run [Connection (Uid 1), Connection (Uid 2), Message (Uid 1) (Some FindPartner),
            Message (Uid 2) (Some FindPartner)] init) (Uid 1) = Some (Uid 2) \<and>
   activePairs (onMessage (Uid 1) (Some Skip)
      (run [Connection (Uid 1), Connection (Uid 2), Message (Uid 1) (Some FindPartner),
            Message (Uid 2) (Some FindPartner)] init)) (Uid 2) = None"
proof -
  let ?s = "run [Connection (Uid 1), Connection (Uid 2), Message (Uid 1) (Some FindPartner),
                 Message (Uid 2) (Some FindPartner)] init"
  have r: "reachable ?s"
    by (rule reachable_run) (rule reachable_init)
  have v: "activePairs ?s (Uid 1) = Some (Uid 2)"
    by (simp add: init_def onFindPartner_def tryPairing_def)
  have w: "activePairs (onMessage (Uid 1) (Some Skip) ?s) (Uid 2) = None"
    by (simp add: init_def onFindPartner_def tryPairing_def skipOrDisconnect_def
        removeFromQueue_def)
  from r v w unpair_idempotent [OF r, of Skip "Uid 1"] show ?thesis
    by blast
qed

subsection \<open>Nobody is paired with themselves\<close>

lemma no_self_pair_onFindPartner:
  "queue_ok s \<Longrightarrow> no_self_pair s \<Longrightarrow> no_self_pair (onFindPartner u s)"
  by (cases "waitingQueue s" rule: remdups_adj.cases)
    (auto simp: queue_ok_def no_self_pair_def onFindPartner_def tryPairing_def)

lemma no_self_pair_skipOrDisconnect:
  "no_self_pair s \<Longrightarrow> no_self_pair (skipOrDisconnect u s)"
  by (auto simp: no_self_pair_def skipOrDisconnect_def removeFromQueue_def Let_def
      split: option.splits)

lemma no_self_pair_handleDisconnect:
  "no_self_pair s \<Longrightarrow> no_self_pair (handleDisconnect u s)"
  by (auto simp: no_self_pair_def handleDisconnect_def removeFromQueue_def Let_def
      split: option.splits)

lemma no_self_pair_onMessage:
  "queue_ok s \<Longrightarrow> no_self_pair s \<Longrightarrow> no_self_pair (onMessage u d s)"
proof (cases d)
  case None
  assume "no_self_pair s"
  with None show ?thesis by (simp add: no_self_pair_def)
next
  case (Some m)
  assume ok: "queue_ok s" and ns: "no_self_pair s"
  show ?thesis
  proof (cases m)
    case FindPartner
    with Some ok ns show ?thesis by (simp add: no_self_pair_onFindPartner)
  next
    case Skip
    with Some ns show ?thesis by (simp add: no_self_pair_skipOrDisconnect)
  next
    case Disconnect
    with Some ns show ?thesis by (simp add: no_self_pair_skipOrDisconnect)
  qed (use Some ns in \<open>auto simp: relay_def no_self_pair_def split: option.splits\<close>)
qed

lemma no_self_pair_step: "queue_ok s \<Longrightarrow> no_self_pair s \<Longrightarrow> no_self_pair (step e s)"
proof (cases e)
  case (Connection u)
  assume "no_self_pair s"
  with Connection show ?thesis by (simp add: no_self_pair_def)
next
  case (WsState u r)
  assume "no_self_pair s"
  with WsState show ?thesis by (simp add: no_self_pair_def split: option.splits)
qed (simp_all add: no_self_pair_onMessage no_self_pair_handleDisconnect)

lemma reachable_no_self_pair: "reachable s \<Longrightarrow> activePairs s a \<noteq> Some a"
proof -
  have "reachable s \<Longrightarrow> no_self_pair s"
  proof (induction rule: reachable.induct)
    case reachable_init
    show ?case by (simp add: no_self_pair_def init_def)
  next
    case (reachable_step s e)
    then show ?case by (simp only: no_self_pair_step reachable_queue_ok)
  qed
  then show "reachable s \<Longrightarrow> activePairs s a \<noteq> Some a"
    by (simp add: no_self_pair_def)
qed

subsection \<open>Traces in which only unpaired users ask for a partner\<close>

lemma symmetric_pair:
  assumes "symmetric m" and "m u = None" and "m w = None"
  shows "symmetric (m(w \<mapsto> u, u \<mapsto> w))"
proof -
  have pt: "(m(w \<mapsto> u, u \<mapsto> w)) x = (if x = u then Some w else if x = w then Some u else m x)"
    for x by simp
  have "(if b = u then Some w else if b = w then Some u else m b) = Some a"
    if h: "(if a = u then Some w else if a = w then Some u else m a) = Some b" for a b
  proof (cases "a = u \<or> a = w")
    case True
    with h show ?thesis by (auto split: if_splits)
  next
    case False
    with h have "m a = Some b" by simp
    with assms(1) have ba: "m b = Some a" unfolding symmetric_def by blast
    with assms(2,3) have "b \<noteq> u \<and> b \<noteq> w" by force
    with ba show ?thesis by simp
  qed
  then show ?thesis
    unfolding symmetric_def pt by blast
qed

lemma symmetric_unpair:
  assumes "symmetric m" and "m u = Some p"
  shows "symmetric ((m(p := None))(u := None))"
  unfolding symmetric_def
proof (intro allI impI)
  fix a b
  assume h: "((m(p := None))(u := None)) a = Some b"
  then have a: "a \<noteq> u" "a \<noteq> p" and ab: "m a = Some b"
    by (simp_all add: fun_upd_apply split: if_splits)
  from ab assms(1) have ba: "m b = Some a" unfolding symmetric_def by blast
  from assms have pu: "m p = Some u" unfolding symmetric_def by blast
  from ba a assms(2) have "b \<noteq> u" by force
  moreover from ba a pu have "b \<noteq> p" by force
  ultimately show "((m(p := None))(u := None)) b = Some a"
    using ba by simp
qed

lemma onFindPartner_cases:
  assumes "queue_ok s"
  shows "(waitingQueue s = [] \<and> waitingQueue (onFindPartner u s) = [u]
            \<and> activePairs (onFindPartner u s) = activePairs s)
       \<or> (waitingQueue s = [u] \<and> waitingQueue (onFindPartner u s) = [u]
            \<and> activePairs (onFindPartner u s) = activePairs s)
       \<or> (\<exists>w. w \<noteq> u \<and> waitingQueue s = [w] \<and> waitingQueue (onFindPartner u s) = []
            \<and> activePairs (onFindPartner u s) = (activePairs s)(w \<mapsto> u, u \<mapsto> w))"
  using assms
  by (cases "waitingQueue s" rule: remdups_adj.cases)
    (simp_all add: queue_ok_def onFindPartner_def tryPairing_def)

lemma pairs_ok_onFindPartner:
  assumes "pairs_ok s" and "activePairs s u = None"
  shows "pairs_ok (onFindPartner u s)"
proof -
  from assms(1) have q: "queue_ok s" and sy: "symmetric (activePairs s)"
    and dj: "\<forall>a \<in> set (waitingQueue s). activePairs s a = None"
    by (simp_all add: pairs_ok_def)
  have q': "queue_ok (onFindPartner u s)"
    using q by (rule queue_ok_onFindPartner)
  from onFindPartner_cases [OF q, of u] show ?thesis
  proof (elim disjE exE conjE)
    assume "waitingQueue s = []" "waitingQueue (onFindPartner u s) = [u]"
      "activePairs (onFindPartner u s) = activePairs s"
    with q' sy assms(2) show ?thesis by (simp add: pairs_ok_def)
  next
    assume "waitingQueue s = [u]" "waitingQueue (onFindPartner u s) = [u]"
      "activePairs (onFindPartner u s) = activePairs s"
    with q' sy assms(2) show ?thesis by (simp add: pairs_ok_def)
  next
    fix w
    assume w: "w \<noteq> u" "waitingQueue s = [w]" "waitingQueue (onFindPartner u s) = []"
      "activePairs (onFindPartner u s) = (activePairs s)(w \<mapsto> u, u \<mapsto> w)"
    from dj w(2) have "activePairs s w = None" by simp
    with sy assms(2) have "symmetric ((activePairs s)(w \<mapsto> u, u \<mapsto> w))"
      by (simp add: symmetric_pair)
    with q' w show ?thesis by (simp add: pairs_ok_def)
  qed
qed

lemma pairs_ok_unpair:
  assumes "pairs_ok s"
    and q: "waitingQueue s' = remove1 u (waitingQueue s)"
    and p: "activePairs s' = (case activePairs s u of
                Some p \<Rightarrow> ((activePairs s)(p := None))(u := None) | None \<Rightarrow> activePairs s)"
  shows "pairs_ok s'"
proof -
  from assms(1) have qo: "queue_ok s" and sy: "symmetric (activePairs s)"
    and dj: "\<forall>a \<in> set (waitingQueue s). activePairs s a = None"
    by (simp_all add: pairs_ok_def)
  have "queue_ok (removeFromQueue u s)"
    using qo by (rule queue_ok_removeFromQueue)
  then have q': "queue_ok s'"
    using q by (simp add: queue_ok_def removeFromQueue_def)
  have sy': "symmetric (activePairs s')"
    using sy p by (auto simp: symmetric_unpair split: option.splits)
  have "\<forall>a \<in> set (waitingQueue s'). activePairs s a = None"
    using dj q by (auto dest: notin_set_remove1)
  then have "\<forall>a \<in> set (waitingQueue s'). activePairs s' a = None"
    using p by (auto split: option.splits)
  with q' sy' show ?thesis by (simp add: pairs_ok_def)
qed

lemma pairs_ok_skipOrDisconnect: "pairs_ok s \<Longrightarrow> pairs_ok (skipOrDisconnect u s)"
  by (erule pairs_ok_unpair [where u = u])
    (simp_all add: skipOrDisconnect_def removeFromQueue_def Let_def split: option.splits)

lemma pairs_ok_handleDisconnect: "pairs_ok s \<Longrightarrow> pairs_ok (handleDisconnect u s)"
  by (erule pairs_ok_unpair [where u = u])
    (simp_all add: handleDisconnect_def removeFromQueue_def Let_def split: option.splits)

lemma pairs_ok_step:
  assumes "pairs_ok s" and "\<forall>u. e = Message u (Some FindPartner) \<longrightarrow> activePairs s u = None"
  shows "pairs_ok (step e s)"
proof (cases e)
  case (Connection u)
  with assms show ?thesis by (simp add: pairs_ok_def queue_ok_def)
next
  case (WsState u r)
  with assms show ?thesis by (simp add: pairs_ok_def queue_ok_def split: option.splits)
next
  case (WsClose u)
  with assms show ?thesis by (simp add: pairs_ok_handleDisconnect)
next
  case (WsError u)
  with assms show ?thesis by (simp add: pairs_ok_handleDisconnect)
next
  case (Message u d)
  show ?thesis
  proof (cases d)
    case None
    with Message assms show ?thesis by (simp add: pairs_ok_def queue_ok_def)
  next
    case (Some m)
    show ?thesis
    proof (cases m)
      case FindPartner
      with Some Message assms show ?thesis by (simp add: pairs_ok_onFindPartner)
    next
      case Skip
      with Some Message assms show ?thesis by (simp add: pairs_ok_skipOrDisconnect)
    next
      case Disconnect
      with Some Message assms show ?thesis by (simp add: pairs_ok_skipOrDisconnect)
    qed (use Some Message assms in
        \<open>auto simp: relay_def pairs_ok_def queue_ok_def split: option.splits\<close>)
  qed
qed

lemma pairs_ok_run: "pairs_ok s \<Longrightarrow> polite es s \<Longrightarrow> pairs_ok (run es s)"
proof (induction es arbitrary: s)
  case Nil
  then show ?case by simp
next
  case (Cons e es)
  from Cons.prems have "pairs_ok (step e s)"
    by (intro pairs_ok_step) simp_all
  moreover from Cons.prems have "polite es (step e s)"
    by simp
  ultimately show ?case
    using Cons.IH by simp
qed

lemma polite_run_invariants:
  assumes "polite es init"
  shows "set (waitingQueue (run es init)) \<inter> dom (activePairs (run es init)) = {}"
    and "activePairs (run es init) a = Some b \<Longrightarrow> activePairs (run es init) b = Some a"
proof -
  have "pairs_ok init"
    by (simp add: pairs_ok_def queue_ok_def init_def symmetric_def)
  with assms have ok: "pairs_ok (run es init)"
    by (simp add: pairs_ok_run)
  from ok show "set (waitingQueue (run es init)) \<inter> dom (activePairs (run es init)) = {}"
    by (auto simp: pairs_ok_def)
  from ok show "activePairs (run es init) a = Some b \<Longrightarrow> activePairs (run es init) b = Some a"
    unfolding pairs_ok_def symmetric_def by blast
qed

subsection \<open>A paired user asking for a partner again\<close>

text \<open>
  Claim C1, evaluated where it fails. Users 1 and 2 connect and are paired by their
  \<open>find-partner\<close> messages. User 1 then sends \<open>find-partner\<close> again: the handler
  only asks whether the id is already in the queue, so user 1 is pushed, and is in the
  queue and a key of \<open>activePairs\<close> at once.
\<close>

theorem find_partner_while_paired_enqueues:
  "waitingQueue (run [Connection (Uid 1), Connection (Uid 2),
                      Message (Uid 1) (Some FindPartner), Message (Uid 2) (Some FindPartner),
                      Message (Uid 1) (Some FindPartner)] init) = [Uid 1] \<and>
   activePairs (run [Connection (Uid 1), Connection (Uid 2),
                     Message (Uid 1) (Some FindPartner), Message (Uid 2) (Some FindPartner),
                     Message (Uid 1) (Some FindPartner)] init) (Uid 1) = Some (Uid 2)"
  by (simp add: init_def onFindPartner_def tryPairing_def)

text \<open>
  Claim C2, evaluated where it fails. Users 1 and 2 are paired and user 3 waits. User 1
  sends \<open>find-partner\<close> again and is paired with user 3. The entry of user 2 still
  names user 1, whose partner is now user 3.
\<close>

theorem pairing_a_paired_user_breaks_symmetry:
  "activePairs (run [Connection (Uid 1), Connection (Uid 2), Connection (Uid 3),
                     Message (Uid 1) (Some FindPartner), Message (Uid 2) (Some FindPartner),
                     Message (Uid 3) (Some FindPartner), Message (Uid 1) (Some FindPartner)]
                  init) (Uid 2) = Some (Uid 1) \<and>
   activePairs (run [Connection (Uid 1), Connection (Uid 2), Connection (Uid 3),
                     Message (Uid 1) (Some FindPartner), Message (Uid 2) (Some FindPartner),
                     Message (Uid 3) (Some FindPartner), Message (Uid 1) (Some FindPartner)]
                  init) (Uid 1) = Some (Uid 3)"
  by (simp add: init_def onFindPartner_def tryPairing_def)

section \<open>Properties of the client\<close>

subsection \<open>Sending on a socket that is not open\<close>

text \<open>
  Claim C10. Whatever the message, when the client's socket is absent or not open,
  \<open>send\<close> returns false and leaves the client as it was: the message is neither
  transmitted nor kept for later. \<open>skip\<close> and \<open>disconnect\<close> then only clear
  \<open>partnerId\<close>, and they clear it in every case.
\<close>

theorem send_when_not_open:
  "(ws c \<noteq> Some OPEN \<longrightarrow>
      send m c = (False, c) \<and>
      findPartner c = c \<and> sendOffer offer c = c \<and> sendAnswer answer c = c \<and>
      sendIceCandidate candidate c = c \<and>
      skip c = c\<lparr>partnerId := None\<rparr> \<and>
      disconnect c = c\<lparr>partnerId := None\<rparr>) \<and>
   partnerId (skip c) = None \<and> partnerId (disconnect c) = None"
  by (simp add: send_def skip_def disconnect_def findPartner_def sendOffer_def sendAnswer_def
      sendIceCandidate_def)

theorem send_when_not_open_witness:
  "ws (newClient\<lparr>ws := Some CONNECTING, partnerId := Some (Uid 2)\<rparr>) \<noteq> Some OPEN \<and>
   send FindPartner (newClient\<lparr>ws := Some CONNECTING, partnerId := Some (Uid 2)\<rparr>)
     = (False, newClient\<lparr>ws := Some CONNECTING, partnerId := Some (Uid 2)\<rparr>) \<and>
   wire (skip (newClient\<lparr>ws := Some CONNECTING, partnerId := Some (Uid 2)\<rparr>)) = [] \<and>
   partnerId (skip (newClient\<lparr>ws := Some CONNECTING, partnerId := Some (Uid 2)\<rparr>)) = None \<and>
   partnerId (disconnect (newClient\<lparr>ws := Some CONNECTING, partnerId := Some (Uid 2)\<rparr>)) = None"
  using send_when_not_open
    [of "newClient\<lparr>ws := Some CONNECTING, partnerId := Some (Uid 2)\<rparr>" FindPartner]
  by (simp add: newClient_def)

subsection \<open>Reconnecting\<close>

lemma attemptReconnect_fixed:
  "\<not> reconnectAttempts c < maxReconnectAttempts c \<Longrightarrow> (attemptReconnect ^^ k) c = c"
  by (induction k) (simp_all add: attemptReconnect_def)

lemma reconnectDelay_values:
  "reconnectDelay (Suc 0) = 2000"
  "reconnectDelay (Suc (Suc 0)) = 4000"
  "reconnectDelay (Suc (Suc (Suc 0))) = 8000"
  "reconnectDelay (Suc (Suc (Suc (Suc 0)))) = 16000"
  "reconnectDelay (Suc (Suc (Suc (Suc (Suc 0))))) = 30000"
  by (simp_all add: reconnectDelay_def)

lemma attemptReconnect_newClient:
  "attemptReconnect (newClient\<lparr>reconnectAttempts := n, timers := ts\<rparr>) =
     (if n < 5 then newClient\<lparr>reconnectAttempts := Suc n, timers := ts @ [reconnectDelay (Suc n)]\<rparr>
      else newClient\<lparr>reconnectAttempts := n, timers := ts\<rparr>)"
  by (simp add: attemptReconnect_def newClient_def)

lemma newClient_fresh: "newClient = newClient\<lparr>reconnectAttempts := 0, timers := []\<rparr>"
  by (simp add: newClient_def)

lemma attemptReconnect_five:
  "(attemptReconnect ^^ Suc (Suc (Suc (Suc (Suc 0))))) newClient =
     newClient\<lparr>reconnectAttempts := Suc (Suc (Suc (Suc (Suc 0)))),
       timers := [2000, 4000, 8000, 16000, 30000]\<rparr>"
  by (subst newClient_fresh)
    (simp add: attemptReconnect_newClient reconnectDelay_values del: One_nat_def)

lemma attemptReconnect_schedule:
  "timers ((attemptReconnect ^^ k) newClient) = take k [2000, 4000, 8000, 16000, 30000]"
proof (cases "k \<le> 5")
  case True
  then consider "k = 0" | "k = Suc 0" | "k = Suc (Suc 0)" | "k = Suc (Suc (Suc 0))"
    | "k = Suc (Suc (Suc (Suc 0)))" | "k = Suc (Suc (Suc (Suc (Suc 0))))"
    by linarith
  then show ?thesis
  proof cases
    case 1
    then show ?thesis by (simp add: newClient_def)
  next
    case 2
    then show ?thesis
      by (subst newClient_fresh) (simp add: attemptReconnect_newClient reconnectDelay_values)
  next
    case 3
    then show ?thesis
      by (subst newClient_fresh) (simp add: attemptReconnect_newClient reconnectDelay_values)
  next
    case 4
    then show ?thesis
      by (subst newClient_fresh) (simp add: attemptReconnect_newClient reconnectDelay_values)
  next
    case 5
    then show ?thesis
      by (subst newClient_fresh) (simp add: attemptReconnect_newClient reconnectDelay_values)
  next
    case 6
    then show ?thesis by (simp only: attemptReconnect_five) simp
  qed
next
  case False
  then have "k = (k - 5) + Suc (Suc (Suc (Suc (Suc 0))))"
    by simp
  then obtain j where k: "k = j + Suc (Suc (Suc (Suc (Suc 0))))" ..
  have "(attemptReconnect ^^ k) newClient =
      (attemptReconnect ^^ j) ((attemptReconnect ^^ Suc (Suc (Suc (Suc (Suc 0))))) newClient)"
    unfolding k by (simp only: funpow_add o_apply)
  also have "\<dots> = (attemptReconnect ^^ Suc (Suc (Suc (Suc (Suc 0))))) newClient"
    by (rule attemptReconnect_fixed) (simp only: attemptReconnect_five, simp add: newClient_def)
  finally show ?thesis
    using k by (simp only: attemptReconnect_five) simp
qed

lemma attemptReconnect_budget:
  "length (timers ((attemptReconnect ^^ k) c))
     + (maxReconnectAttempts ((attemptReconnect ^^ k) c)
          - reconnectAttempts ((attemptReconnect ^^ k) c))
     \<le> length (timers c) + (maxReconnectAttempts c - reconnectAttempts c)"
proof (induction k)
  case 0
  show ?case by simp
next
  case (Suc k)
  have "length (timers (attemptReconnect x))
          + (maxReconnectAttempts (attemptReconnect x) - reconnectAttempts (attemptReconnect x))
     \<le> length (timers x) + (maxReconnectAttempts x - reconnectAttempts x)" for x
    by (auto simp: attemptReconnect_def Let_def)
  from this [of "(attemptReconnect ^^ k) c"] Suc show ?case
    by simp
qed

lemma reconnect_on_close_event:
  "ws d \<noteq> None \<Longrightarrow> ws d \<noteq> Some CLOSED \<Longrightarrow> reconnectAttempts d < maxReconnectAttempts d \<Longrightarrow>
   timers (closeEvent (close d)) = timers d @ [reconnectDelay (reconnectAttempts d + 1)]"
  by (auto simp: close_def closeEvent_def ws_onclose_def onDisconnected_def
      attemptReconnect_def Let_def)

lemma reconnect_on_drop:
  "ws d \<noteq> None \<Longrightarrow> reconnectAttempts d < maxReconnectAttempts d \<Longrightarrow>
   timers (dropped d) = timers d @ [reconnectDelay (reconnectAttempts d + 1)]"
  by (auto simp: dropped_def ws_onclose_def onDisconnected_def attemptReconnect_def Let_def)

text \<open>
  The backoff schedule. Starting from a new client, the successive reconnects are
  scheduled after 2000, 4000, 8000, 16000 and 30000 ms and there is no sixth; in general
  no more reconnects are scheduled than attempts remain. The delay never exceeds
  30000 ms and doubles from one attempt to the next while it stays under that cap. A
  reconnect is scheduled whenever a \<open>close\<close> event reaches the handler with attempts
  left, whether the socket was lost or was closed by \<open>close\<close>.
\<close>

theorem reconnect_backoff:
  "timers ((attemptReconnect ^^ k) newClient) = take k [2000, 4000, 8000, 16000, 30000] \<and>
   length (timers ((attemptReconnect ^^ k) c))
     \<le> length (timers c) + (maxReconnectAttempts c - reconnectAttempts c) \<and>
   reconnectDelay n \<le> 30000 \<and>
   (1000 * 2 ^ (n + 1) \<le> (30000::nat) \<longrightarrow> reconnectDelay (n + 1) = 2 * reconnectDelay n) \<and>
   (ws d \<noteq> None \<and> reconnectAttempts d < maxReconnectAttempts d \<longrightarrow>
      timers (dropped d) = timers d @ [reconnectDelay (reconnectAttempts d + 1)]) \<and>
   (ws d \<noteq> None \<and> ws d \<noteq> Some CLOSED \<and> reconnectAttempts d < maxReconnectAttempts d \<longrightarrow>
      timers (closeEvent (close d)) = timers d @ [reconnectDelay (reconnectAttempts d + 1)])"
proof -
  have "length (timers ((attemptReconnect ^^ k) c))
     \<le> length (timers c) + (maxReconnectAttempts c - reconnectAttempts c)"
    using attemptReconnect_budget [of k c] by linarith
  moreover have "1000 * 2 ^ (n + 1) \<le> (30000::nat) \<longrightarrow> reconnectDelay (n + 1) = 2 * reconnectDelay n"
    by (simp add: reconnectDelay_def)
  moreover have "reconnectDelay n \<le> 30000"
    by (simp add: reconnectDelay_def)
  ultimately show ?thesis
    using attemptReconnect_schedule reconnect_on_drop reconnect_on_close_event by blast
qed

theorem reconnect_backoff_witness:
  "timers ((attemptReconnect ^^ 7) newClient) = [2000, 4000, 8000, 16000, 30000] \<and>
   reconnectDelay 2 = 4000 \<and> reconnectDelay 3 = 8000 \<and>
   ws (opened (connect newClient)) = Some OPEN \<and>
   reconnectAttempts (opened (connect newClient)) < maxReconnectAttempts (opened (connect newClient)) \<and>
   timers (dropped (opened (connect newClient))) = [2000] \<and>
   timers (closeEvent (close (opened (connect newClient)))) = [2000]"
proof -
  have o: "ws (opened (connect newClient)) = Some OPEN"
    "reconnectAttempts (opened (connect newClient)) = 0"
    "maxReconnectAttempts (opened (connect newClient)) = 5"
    "timers (opened (connect newClient)) = []"
    by (simp_all add: opened_def connect_def ws_onopen_def newClient_def)
  have d: "reconnectDelay (Suc 0) = 2000" "reconnectDelay 2 = 4000" "reconnectDelay 3 = 8000"
    by (simp_all add: reconnectDelay_def)
  from reconnect_backoff [of 7 newClient 2 "opened (connect newClient)"] o d
  show ?thesis by simp
qed

text \<open>
  Claim C8, evaluated where it fails. The user stops the chat on an open connection:
  \<open>close\<close> closes the socket and clears \<open>ws\<close>, \<open>userId\<close> and \<open>partnerId\<close>, and
  the status becomes \<open>disconnected\<close>. The \<open>onclose\<close> handler is still attached to
  the closed socket, so when the browser delivers its \<open>close\<close> event a reconnect is
  scheduled after 2000 ms, and when that timer fires the client opens a new socket.
\<close>

theorem reconnect_after_close:
  "ws (stopChat (opened (connect newClient))) = None \<and>
   userId (stopChat (opened (connect newClient))) = None \<and>
   status (stopChat (opened (connect newClient))) = ''disconnected'' \<and>
   timers (stopChat (opened (connect newClient))) = [] \<and>
   timers (closeEvent (stopChat (opened (connect newClient)))) = [2000] \<and>
   ws (closeEvent (stopChat (opened (connect newClient)))) = None \<and>
   ws (timerFires (closeEvent (stopChat (opened (connect newClient))))) = Some CONNECTING"
  by (simp add: newClient_def connect_def opened_def ws_onopen_def stopChat_def app_cleanup_def
      rtc_cleanup_def closePeerConnection_def close_def closeEvent_def ws_onclose_def
      onDisconnected_def attemptReconnect_def reconnectDelay_def timerFires_def)

subsection \<open>Remote ICE candidates\<close>

lemma candidates_applied:
  "peerConnection c = Some pc \<Longrightarrow> remoteDescription pc \<noteq> None \<Longrightarrow>
   receive b (map (\<lambda>cand. IceFrom (Some cand) sender) cs) c =
     c\<lparr>peerConnection := Some (pc\<lparr>remoteCandidates := remoteCandidates pc @ cs\<rparr>)\<rparr>"
proof (induction cs arbitrary: c pc)
  case Nil
  then show ?case by simp
next
  case (Cons x xs)
  let ?pc = "pc\<lparr>remoteCandidates := remoteCandidates pc @ [x]\<rparr>"
  let ?c = "c\<lparr>peerConnection := Some ?pc\<rparr>"
  have one: "handleMessage b (IceFrom (Some x) sender) c = ?c"
    using Cons.prems
    by (auto simp: onIceCandidate_def addIceCandidate_def rtc_addIceCandidate_def)
  have "receive b (map (\<lambda>cand. IceFrom (Some cand) sender) xs) ?c =
      ?c\<lparr>peerConnection := Some (?pc\<lparr>remoteCandidates := remoteCandidates ?pc @ xs\<rparr>)\<rparr>"
    using Cons.prems by (intro Cons.IH) simp_all
  with one show ?case by simp
qed

lemma candidates_discarded:
  "(case peerConnection c of None \<Rightarrow> True | Some pc \<Rightarrow> remoteDescription pc = None) \<Longrightarrow>
   receive b (map (\<lambda>cand. IceFrom cand sender) cs) c = c"
proof (induction cs)
  case Nil
  show ?case by simp
next
  case (Cons x xs)
  have "handleMessage b (IceFrom x sender) c = c"
    using Cons.prems
    by (auto simp: onIceCandidate_def addIceCandidate_def rtc_addIceCandidate_def
        split: option.splits)
  with Cons show ?case by simp
qed

text \<open>
  Claim C4, as the code has it. The client keeps no buffer of candidates. While a peer
  connection with a remote description exists, each candidate received is applied at
  once, so a sequence of candidates is applied in the order received, each exactly once.
  While there is no peer connection, or none with a remote description, a candidate
  received changes nothing: it is dropped, and nothing is kept to apply later.
\<close>

theorem candidates_passed_on_at_once:
  "(peerConnection c = Some pc \<and> remoteDescription pc \<noteq> None \<longrightarrow>
      receive b (map (\<lambda>cand. IceFrom (Some cand) sender) cs) c =
        c\<lparr>peerConnection := Some (pc\<lparr>remoteCandidates := remoteCandidates pc @ cs\<rparr>)\<rparr>) \<and>
   ((case peerConnection d of None \<Rightarrow> True | Some pc \<Rightarrow> remoteDescription pc = None) \<longrightarrow>
      receive b (map (\<lambda>cand. IceFrom cand sender) ds) d = d)"
  using candidates_applied candidates_discarded by blast

theorem candidates_passed_on_at_once_witness:
  "peerConnection (receive \<lparr>offerBlob = Some ''offer-1'', answerBlob = Some ''answer-1''\<rparr>
      [OfferFrom ''offer-2'' (Uid 2)] (opened (connect newClient)))
     = Some \<lparr>localDescription = Some ''answer-1'', remoteDescription = Some ''offer-2'',
             remoteCandidates = []\<rparr> \<and>
   peerConnection (receive \<lparr>offerBlob = Some ''offer-1'', answerBlob = Some ''answer-1''\<rparr>
      [IceFrom (Some ''cand-a'') (Uid 2), IceFrom (Some ''cand-b'') (Uid 2)]
      (receive \<lparr>offerBlob = Some ''offer-1'', answerBlob = Some ''answer-1''\<rparr>
         [OfferFrom ''offer-2'' (Uid 2)] (opened (connect newClient))))
     = Some \<lparr>localDescription = Some ''answer-1'', remoteDescription = Some ''offer-2'',
             remoteCandidates = [''cand-a'', ''cand-b'']\<rparr> \<and>
   peerConnection (opened (connect newClient)) = None \<and>
   receive \<lparr>offerBlob = Some ''offer-1'', answerBlob = Some ''answer-1''\<rparr>
      [IceFrom (Some ''cand-a'') (Uid 2), IceFrom None (Uid 2)] (opened (connect newClient))
     = opened (connect newClient)"
proof -
  let ?b = "\<lparr>offerBlob = Some ''offer-1'', answerBlob = Some ''answer-1''\<rparr>"
  let ?pc = "\<lparr>localDescription = Some ''answer-1'', remoteDescription = Some ''offer-2'',
              remoteCandidates = []\<rparr>"
  let ?c = "receive ?b [OfferFrom ''offer-2'' (Uid 2)] (opened (connect newClient))"
  have pc: "peerConnection ?c = Some ?pc"
    by (simp add: newClient_def connect_def opened_def ws_onopen_def onOffer_def createAnswer_def
        createPeerConnection_def newPeerConnection_def sendAnswer_def send_def)
  have none: "peerConnection (opened (connect newClient)) = None"
    by (simp add: newClient_def connect_def opened_def ws_onopen_def)
  from candidates_passed_on_at_once [of ?c ?pc ?b "Uid 2" "[''cand-a'', ''cand-b'']"
      "opened (connect newClient)" "[Some ''cand-a'', None]"] pc none
  show ?thesis by simp
qed

text \<open>
  Claim C4 as stated fails. A client that has sent its offer receives two candidates and
  then the answer: the remote description is set and no candidate has been applied. The
  same happens to a client without a peer connection that receives a candidate and then
  an offer.
\<close>

theorem early_candidates_lost:
  "map_option remoteDescription (peerConnection
      (receive \<lparr>offerBlob = Some ''offer-1'', answerBlob = Some ''answer-1''\<rparr>
         [Paired (Uid 2), IceFrom (Some ''cand-a'') (Uid 2), IceFrom (Some ''cand-b'') (Uid 2),
          AnswerFrom ''answer-2'' (Uid 2)]
         (opened (connect newClient)))) = Some (Some ''answer-2'') \<and>
   map_option remoteCandidates (peerConnection
      (receive \<lparr>offerBlob = Some ''offer-1'', answerBlob = Some ''answer-1''\<rparr>
         [Paired (Uid 2), IceFrom (Some ''cand-a'') (Uid 2), IceFrom (Some ''cand-b'') (Uid 2),
          AnswerFrom ''answer-2'' (Uid 2)]
         (opened (connect newClient)))) = Some [] \<and>
   map_option remoteDescription (peerConnection
      (receive \<lparr>offerBlob = Some ''offer-1'', answerBlob = Some ''answer-1''\<rparr>
         [IceFrom (Some ''cand-a'') (Uid 2), OfferFrom ''offer-2'' (Uid 2)]
         (opened (connect newClient)))) = Some (Some ''offer-2'') \<and>
   map_option remoteCandidates (peerConnection
      (receive \<lparr>offerBlob = Some ''offer-1'', answerBlob = Some ''answer-1''\<rparr>
         [IceFrom (Some ''cand-a'') (Uid 2), OfferFrom ''offer-2'' (Uid 2)]
         (opened (connect newClient)))) = Some []"
  by (simp add: newClient_def connect_def opened_def ws_onopen_def onPaired_def createOffer_def
      createPeerConnection_def newPeerConnection_def sendOffer_def send_def onIceCandidate_def
      addIceCandidate_def rtc_addIceCandidate_def onAnswer_def handleAnswer_def onOffer_def
      createAnswer_def sendAnswer_def)

subsection \<open>Who sends the offer\<close>

text \<open>
  Claim C3, evaluated where it fails. Users 1 and 2 connect and ask for a partner. The
  server sends \<open>paired\<close> to both, and each client, on \<open>paired\<close>, sets
  \<open>isInitiator\<close> and sends an offer: both sides of the pairing are initiators.
\<close>

theorem both_sides_initiate:
  "inbox (Uid 1) (run [Connection (Uid 1), Connection (Uid 2),
        Message (Uid 1) (Some FindPartner), Message (Uid 2) (Some FindPartner)] init)
     = [Connected (Uid 1), Waiting, Paired (Uid 2)] \<and>
   inbox (Uid 2) (run [Connection (Uid 1), Connection (Uid 2),
        Message (Uid 1) (Some FindPartner), Message (Uid 2) (Some FindPartner)] init)
     = [Connected (Uid 2), Paired (Uid 1)] \<and>
   isInitiator (receive \<lparr>offerBlob = Some ''offer-1'', answerBlob = Some ''answer-1''\<rparr>
       [Connected (Uid 1), Waiting, Paired (Uid 2)] (opened (connect newClient))) \<and>
   wire (receive \<lparr>offerBlob = Some ''offer-1'', answerBlob = Some ''answer-1''\<rparr>
       [Connected (Uid 1), Waiting, Paired (Uid 2)] (opened (connect newClient)))
     = [Offer ''offer-1''] \<and>
   isInitiator (receive \<lparr>offerBlob = Some ''offer-2'', answerBlob = Some ''answer-2''\<rparr>
       [Connected (Uid 2), Paired (Uid 1)] (opened (connect newClient))) \<and>
   wire (receive \<lparr>offerBlob = Some ''offer-2'', answerBlob = Some ''answer-2''\<rparr>
       [Connected (Uid 2), Paired (Uid 1)] (opened (connect newClient)))
     = [Offer ''offer-2'']"
  by (simp add: init_def inbox_def onFindPartner_def tryPairing_def pairUsers_def
      sendToClient_def newClient_def connect_def opened_def ws_onopen_def onPaired_def
      createOffer_def createPeerConnection_def newPeerConnection_def sendOffer_def send_def)

section \<open>Skipping a partner\<close>

lemma inbox_sendToClient:
  "inbox p (sendToClient u m s) =
     (if u = p \<and> clients s u = Some OPEN then inbox p s @ [m] else inbox p s)"
  by (simp add: inbox_def sendToClient_def split: option.splits)

lemma inbox_queue_update [simp]: "inbox p (s\<lparr>waitingQueue := q\<rparr>) = inbox p s"
  by (simp add: inbox_def)

lemma inbox_pairs_update [simp]: "inbox p (s\<lparr>activePairs := q\<rparr>) = inbox p s"
  by (simp add: inbox_def)

lemma clients_skipOrDisconnect [simp]: "clients (skipOrDisconnect u s) = clients s"
  by (simp add: skipOrDisconnect_def removeFromQueue_def Let_def split: option.splits)

lemma skip_then_find:
  assumes "queue_ok s" and "activePairs s a = Some p" and "a \<noteq> p"
    and "p \<notin> set (waitingQueue s)"
  shows "activePairs (run [Message a (Some Skip), Message a (Some FindPartner)] s) p = None"
    and "p \<notin> set (waitingQueue (run [Message a (Some Skip), Message a (Some FindPartner)] s))"
    and "case remove1 a (waitingQueue s) of
           [] \<Rightarrow> waitingQueue (run [Message a (Some Skip), Message a (Some FindPartner)] s) = [a]
                 \<and> activePairs (run [Message a (Some Skip), Message a (Some FindPartner)] s) a = None
         | w # rest \<Rightarrow>
             waitingQueue (run [Message a (Some Skip), Message a (Some FindPartner)] s) = []
             \<and> activePairs (run [Message a (Some Skip), Message a (Some FindPartner)] s) a = Some w
             \<and> activePairs (run [Message a (Some Skip), Message a (Some FindPartner)] s) w = Some a"
    and "clients s p = Some OPEN \<longrightarrow>
           inbox p (run [Message a (Some Skip), Message a (Some FindPartner)] s)
             = inbox p s @ [PartnerLeft]"
  using assms
  by (cases "waitingQueue s" rule: remdups_adj.cases;
      auto simp: queue_ok_def skipOrDisconnect_def removeFromQueue_def Let_def onFindPartner_def
        tryPairing_def inbox_sendToClient pairUsers_def)+

lemma wire_skipPartner:
  "wire (skipPartner c) = wire c @ (if ws c = Some OPEN then [Skip, FindPartner] else [])"
  by (simp add: skipPartner_def findPartner_def skip_def send_def app_handleDisconnect_def
      closePeerConnection_def)

lemma wire_partner_left: "wire (handleMessage b PartnerLeft c) = wire c"
  by (simp add: onPartnerLeft_def app_handleDisconnect_def closePeerConnection_def)

text \<open>
  Claim C9. \<open>skipPartner\<close> hands \<open>skip\<close> and then \<open>find-partner\<close> to the socket
  (both are transmitted when it is open). When the server, in a reachable state where
  \<open>a\<close> has partner \<open>p\<close> and \<open>p\<close> is not waiting, handles these two messages from
  \<open>a\<close>, then \<open>a\<close> is pushed on the queue again: it is left waiting there alone, or
  is paired at once with the id that was waiting. The partner \<open>p\<close> ends with no
  partner and outside the queue, is sent just \<open>partner-left\<close>, and its client sends
  nothing in reaction to \<open>partner-left\<close>.
\<close>

theorem skip_requeues_skipper_only:
  assumes "reachable s" and "activePairs s a = Some p" and "p \<notin> set (waitingQueue s)"
  shows "wire (skipPartner c) = wire c @ (if ws c = Some OPEN then [Skip, FindPartner] else [])
       \<and> (case remove1 a (waitingQueue s) of
             [] \<Rightarrow>
               waitingQueue (run [Message a (Some Skip), Message a (Some FindPartner)] s) = [a]
               \<and> activePairs (run [Message a (Some Skip), Message a (Some FindPartner)] s) a = None
           | w # rest \<Rightarrow>
               waitingQueue (run [Message a (Some Skip), Message a (Some FindPartner)] s) = []
               \<and> activePairs (run [Message a (Some Skip), Message a (Some FindPartner)] s) a = Some w
               \<and> activePairs (run [Message a (Some Skip), Message a (Some FindPartner)] s) w = Some a)
       \<and> activePairs (run [Message a (Some Skip), Message a (Some FindPartner)] s) p = None
       \<and> p \<notin> set (waitingQueue (run [Message a (Some Skip), Message a (Some FindPartner)] s))
       \<and> (clients s p = Some OPEN \<longrightarrow>
             inbox p (run [Message a (Some Skip), Message a (Some FindPartner)] s)
               = inbox p s @ [PartnerLeft])
       \<and> wire (handleMessage b PartnerLeft d) = wire d"
proof -
  from assms(1) have q: "queue_ok s"
    by (rule reachable_queue_ok)
  from assms(1,2) have ne: "a \<noteq> p"
    using reachable_no_self_pair by blast
  from skip_then_find [OF q assms(2) ne assms(3)] wire_skipPartner wire_partner_left
  show ?thesis by blast
qed

theorem skip_requeues_skipper_only_witness:
  "reachable (run [Connection (Uid 1), Connection (Uid 2), Message (Uid 1) (Some FindPartner),
                   Message (Uid 2) (Some FindPartner)] init) \<and>
   activePairs (run [Connection (Uid 1), Connection (Uid 2), Message (Uid 1) (Some FindPartner),
                     Message (Uid 2) (Some FindPartner)] init) (Uid 1) = Some (Uid 2) \<and>
   Uid 2 \<notin> set (waitingQueue (run [Connection (Uid 1), Connection (Uid 2),
                     Message (Uid 1) (Some FindPartner), Message (Uid 2) (Some FindPartner)] init)) \<and>
   wire (skipPartner (opened (connect newClient))) = [Skip, FindPartner] \<and>
   waitingQueue (run [Message (Uid 1) (Some Skip), Message (Uid 1) (Some FindPartner)]
      (run [Connection (Uid 1), Connection (Uid 2), Message (Uid 1) (Some FindPartner),
            Message (Uid 2) (Some FindPartner)] init)) = [Uid 1] \<and>
   activePairs (run [Message (Uid 1) (Some Skip), Message (Uid 1) (Some FindPartner)]
      (run [Connection (Uid 1), Connection (Uid 2), Message (Uid 1) (Some FindPartner),
            Message (Uid 2) (Some FindPartner)] init)) (Uid 2) = None \<and>
   inbox (Uid 2) (run [Message (Uid 1) (Some Skip), Message (Uid 1) (Some FindPartner)]
      (run [Connection (Uid 1), Connection (Uid 2), Message (Uid 1) (Some FindPartner),
            Message (Uid 2) (Some FindPartner)] init))
     = [Connected (Uid 2), Paired (Uid 1), PartnerLeft] \<and>
   wire (handleMessage \<lparr>offerBlob = Some ''offer'', answerBlob = Some ''answer''\<rparr> PartnerLeft
           (opened (connect newClient))) = []"
proof -
  let ?s = "run [Connection (Uid 1), Connection (Uid 2), Message (Uid 1) (Some FindPartner),
                 Message (Uid 2) (Some FindPartner)] init"
  have r: "reachable ?s"
    by (rule reachable_run) (rule reachable_init)
  have v: "activePairs ?s (Uid 1) = Some (Uid 2)"
    by (simp add: init_def onFindPartner_def tryPairing_def)
  have w: "Uid 2 \<notin> set (waitingQueue ?s)"
    by (simp add: init_def onFindPartner_def tryPairing_def)
  have q: "waitingQueue ?s = []" "clients ?s (Uid 2) = Some OPEN"
    "inbox (Uid 2) ?s = [Connected (Uid 2), Paired (Uid 1)]"
    by (simp_all add: init_def onFindPartner_def tryPairing_def inbox_def pairUsers_def
        sendToClient_def)
  have o: "ws (opened (connect newClient)) = Some OPEN" "wire (opened (connect newClient)) = []"
    by (simp_all add: opened_def connect_def ws_onopen_def newClient_def)
  from skip_requeues_skipper_only [OF r v w, of "opened (connect newClient)"
      "\<lparr>offerBlob = Some ''offer'', answerBlob = Some ''answer''\<rparr>" "opened (connect newClient)"]
    r v w q o
  show ?thesis
    by simp
qed

end
